theory Spec2Isabelle
  imports
    Main
    "HOL-Library.Char_ord"
    "HOL-Library.List_Lexorder"
    "HOL-Library.Multiset"
begin

section \<open>The Argos notification relay (argos-server.go)\<close>

text \<open>
  Go strings are byte sequences, compared byte by byte; they are modelled as
  \<^typ>\<open>string\<close> (lists of 8-bit characters) under the lexicographic order of
  \<^theory_text>\<open>List_Lexorder\<close> over the byte order of \<^theory_text>\<open>Char_ord\<close>.
  A glyph outside ASCII is the list of its UTF-8 bytes.
\<close>

subsection \<open>Constants and data\<close>

definition unknownAppIcon :: string where
  \<comment> \<open>U+00B7 MIDDLE DOT, UTF-8 \<open>C2 B7\<close>\<close>
  "unknownAppIcon = [CHR 0xC2, CHR 0xB7]"

definition impossibleNotificationStatus :: string where
  "impossibleNotificationStatus = ''-''"

type_synonym appname = string

definition appDisplayIcons :: "appname \<rightharpoonup> string" where
  \<comment> \<open>U+03C3 is \<open>CF 83\<close>, U+03C0 is \<open>CF 80\<close> in UTF-8\<close>
  "appDisplayIcons =
     [''mail.hobsons.com'' \<mapsto> [CHR 0xCF, CHR 0x83],
      ''hobsons.slack.com'' \<mapsto> ''@'',
      ''hangouts.google.com'' \<mapsto> [CHR 0xCF, CHR 0x80]]"

definition map_index :: "('k \<rightharpoonup> string) \<Rightarrow> 'k \<Rightarrow> string" where
  \<comment> \<open>Go's \<open>m[k]\<close> on a map of strings: the zero value \<open>""\<close> for a missing key\<close>
  "map_index m k = (case m k of None \<Rightarrow> '''' | Some v \<Rightarrow> v)"

text \<open>
  Durations and clock readings are counts of nanoseconds. \<open>time.Duration\<close> is a
  64-bit signed integer, and the subtraction of two readings saturates at its bounds.
\<close>

type_synonym time = int

definition maxDuration :: int where
  "maxDuration = 2 ^ 63 - 1"

definition minDuration :: int where
  "minDuration = - (2 ^ 63)"

definition time_Minute :: int where
  "time_Minute = 60 * 1000000000"

definition notificationMaxLifetime :: int where
  "notificationMaxLifetime = time_Minute * 30"

definition time_Since :: "time \<Rightarrow> time \<Rightarrow> int" where
  \<comment> \<open>\<open>time.Since(t)\<close> when the clock reads \<open>now\<close>: the difference, saturated
      to the range of a Duration\<close>
  "time_Since now t =
     (let d = now - t
      in if d > maxDuration then maxDuration
         else if d < minDuration then minDuration
         else d)"

record notification =
  label :: string
  updatedAt :: time

text \<open>
  The server. The mutex \<open>notificationLock\<close> has no field here: every operation
  below is the body of one critical section, run to its end.
\<close>

record ArgosNotificationServer =
  Host :: string
  Port :: int
  ArgosHome :: string
  lastNotificationStatus :: string
  notifications :: "appname \<rightharpoonup> notification"

datatype error =
    ErrorString string    \<comment> \<open>\<open>errors.New\<close>\<close>
  | OSError string        \<comment> \<open>an error of package \<open>os\<close> or of a write\<close>
  | SyntaxError           \<comment> \<open>\<open>encoding/json\<close>: no JSON value could be read\<close>
  | UnmarshalTypeError    \<comment> \<open>\<open>encoding/json\<close>: a value of the wrong JSON type\<close>

subsection \<open>Rendering\<close>

definition fmt_Sprint :: "string list \<Rightarrow> string" where
  \<comment> \<open>\<open>fmt.Sprint\<close> on string operands: no space is added next to a string\<close>
  "fmt_Sprint operands = concat operands"

definition notificationDisplay :: "appname \<Rightarrow> notification \<Rightarrow> string" where
  "notificationDisplay app notifs =
     (if label notifs = '''' \<or> label notifs = ''0'' then ''''
      else
        let appIcon = map_index appDisplayIcons app;
            appIcon = (if appIcon = '''' then unknownAppIcon else appIcon)
        in if label notifs = ''1'' then appIcon
           else fmt_Sprint [appIcon, label notifs])"

definition sort_Strings :: "string list \<Rightarrow> string list" where
  \<comment> \<open>\<open>sort.Strings\<close>: the strings in increasing byte order\<close>
  "sort_Strings xs = sort xs"

fun strings_Join :: "string list \<Rightarrow> string \<Rightarrow> string" where
  "strings_Join [] sep = ''''"
| "strings_Join [x] sep = x"
| "strings_Join (x # y # ys) sep = x @ sep @ strings_Join (y # ys) sep"

text \<open>
  A \<open>range\<close> over a Go map visits every key of the map once, in an order the
  language leaves open. The order of one traversal is an argument of each function
  that ranges over the registry: a list of keys, of which the loop visits those that
  the map holds.
\<close>

definition range_order :: "'k list \<Rightarrow> ('k \<rightharpoonup> 'v) \<Rightarrow> bool" where
  "range_order ks m = (distinct ks \<and> set ks = dom m)"

definition visibleNotifications ::
  "appname list \<Rightarrow> (appname \<rightharpoonup> notification) \<Rightarrow> string list" where
  \<comment> \<open>the loop of \<open>NotificationStatus\<close>\<close>
  "visibleNotifications order m =
     foldl (\<lambda>visible app.
        case m app of
          None \<Rightarrow> visible
        | Some notifs \<Rightarrow>
            (let appDisplay = notificationDisplay app notifs
             in if appDisplay \<noteq> '''' then visible @ [appDisplay] else visible))
       [] order"

definition NotificationStatus :: "appname list \<Rightarrow> ArgosNotificationServer \<Rightarrow> string" where
  "NotificationStatus order s =
     strings_Join (sort_Strings (visibleNotifications order (notifications s))) '' ''"

subsection \<open>Eviction\<close>

text \<open>
  \<open>time.Since\<close> reads the clock once for each entry the loop visits; \<open>clock app\<close>
  is the reading taken at the entry of \<open>app\<close>.
\<close>

definition defunctApps ::
  "(appname \<Rightarrow> time) \<Rightarrow> appname list \<Rightarrow> (appname \<rightharpoonup> notification) \<Rightarrow> appname list" where
  \<comment> \<open>the first loop of \<open>pruneStaleNotifications\<close>\<close>
  "defunctApps clock order m =
     foldl (\<lambda>defunct app.
        case m app of
          None \<Rightarrow> defunct
        | Some notifs \<Rightarrow>
            if time_Since (clock app) (updatedAt notifs) > notificationMaxLifetime
            then defunct @ [app] else defunct)
       [] order"

definition pruneStaleNotifications ::
  "(appname \<Rightarrow> time) \<Rightarrow> appname list \<Rightarrow> ArgosNotificationServer
     \<Rightarrow> unit \<times> ArgosNotificationServer" where
  \<comment> \<open>the Go function has no result: the first component is the unit value\<close>
  "pruneStaleNotifications clock order s =
     (let defunct = defunctApps clock order (notifications s)
      in ((), s\<lparr>notifications := foldl (\<lambda>m app. m(app := None)) (notifications s) defunct\<rparr>))"

subsection \<open>Publishing\<close>

text \<open>A path is kept as the two operands of \<open>filepath.Join\<close>: a directory and a name.\<close>

datatype filepath = filepath_Join string string

datatype syscall =
    is_Create: Create filepath
  | is_Write: Write filepath string
  | is_Close: Close filepath
  | is_Rename: Rename filepath filepath

text \<open>
  The file system: the contents of the files, and the calls made so far. Which call of
  one publication fails, if any, is decided outside the program.
\<close>

record filesystem =
  files :: "filepath \<rightharpoonup> string"
  calls :: "syscall list"

datatype io_outcome =
    IOSucceeds
  | CreateFails error
  | FprintlnFails nat error   \<comment> \<open>the number of bytes that reached the file\<close>
  | RenameFails error

text \<open>The error that a fate makes the failing operation return.\<close>

definition io_error :: "io_outcome \<Rightarrow> error option" where
  "io_error fate =
     (case fate of
        IOSucceeds \<Rightarrow> None
      | CreateFails err \<Rightarrow> Some err
      | FprintlnFails n err \<Rightarrow> Some err
      | RenameFails err \<Rightarrow> Some err)"

definition argosNotificationFilepath :: "ArgosNotificationServer \<Rightarrow> filepath" where
  "argosNotificationFilepath s = filepath_Join (ArgosHome s) ''.notifications''"

definition argosNotificationTempFilepath :: "ArgosNotificationServer \<Rightarrow> filepath" where
  "argosNotificationTempFilepath s = filepath_Join (ArgosHome s) ''.notifications.tmp''"

definition writeNotificationTempFile ::
  "io_outcome \<Rightarrow> string \<Rightarrow> ArgosNotificationServer \<Rightarrow> filesystem
     \<Rightarrow> (filepath \<times> error option) \<times> filesystem" where
  "writeNotificationTempFile io status s fs =
     (let tmpFilePath = argosNotificationTempFilepath s;
          fs = fs\<lparr>calls := calls fs @ [Create tmpFilePath]\<rparr>
      in case io of
           CreateFails err \<Rightarrow> ((tmpFilePath, Some err), fs)
         | _ \<Rightarrow>
           (let fs = fs\<lparr>files := (files fs)(tmpFilePath \<mapsto> '''')\<rparr>;
                line = status @ [CHR 0x0A];
                (written, err) =
                   (case io of FprintlnFails n e \<Rightarrow> (take n line, Some e)
                    | _ \<Rightarrow> (line, None));
                fs = fs\<lparr>files := (files fs)(tmpFilePath \<mapsto> written),
                        calls := calls fs @ [Write tmpFilePath line, Close tmpFilePath]\<rparr>
            in ((tmpFilePath, err), fs)))"

definition os_Rename ::
  "io_outcome \<Rightarrow> filepath \<Rightarrow> filepath \<Rightarrow> filesystem \<Rightarrow> error option \<times> filesystem" where
  "os_Rename io oldpath newpath fs =
     (let fs = fs\<lparr>calls := calls fs @ [Rename oldpath newpath]\<rparr>
      in case io of
           RenameFails err \<Rightarrow> (Some err, fs)
         | _ \<Rightarrow> (None, fs\<lparr>files := ((files fs)(newpath := files fs oldpath))(oldpath := None)\<rparr>))"

definition writeNotificationStatus ::
  "appname list \<Rightarrow> io_outcome \<Rightarrow> ArgosNotificationServer \<Rightarrow> filesystem
     \<Rightarrow> error option \<times> ArgosNotificationServer \<times> filesystem" where
  "writeNotificationStatus order io s fs =
     (let notificationStatus = NotificationStatus order s
      in if notificationStatus = lastNotificationStatus s then (None, s, fs)
         else
           (let s = s\<lparr>lastNotificationStatus := notificationStatus\<rparr>;
                ((tempFilePath, err), fs) = writeNotificationTempFile io notificationStatus s fs
            in case err of
                 Some e \<Rightarrow> (Some e, s, fs)
               | None \<Rightarrow>
                   (let (err, fs) = os_Rename io tempFilePath (argosNotificationFilepath s) fs
                    in (err, s, fs))))"

datatype log_operand = S string | E error

type_synonym logline = "log_operand list"

text \<open>
  One iteration of the loop of \<open>PushArgosStatus\<close> reads from its surroundings the
  clock, the orders of its two traversals of the registry and the fate of its file
  operations.
\<close>

record cycle_env =
  prune_clock :: "appname \<Rightarrow> time"
  prune_order :: "appname list"
  status_order :: "appname list"
  io_fate :: io_outcome

type_synonym world = "ArgosNotificationServer \<times> filesystem \<times> logline list"

definition pushCycle :: "cycle_env \<Rightarrow> world \<Rightarrow> world" where
  \<comment> \<open>the body of the loop; \<open>time.Sleep\<close> changes nothing of the state\<close>
  "pushCycle env w =
     (case w of (s, fs, lg) \<Rightarrow>
        (let (u, s) = pruneStaleNotifications (prune_clock env) (prune_order env) s;
             (err, s, fs) = writeNotificationStatus (status_order env) (io_fate env) s fs
         in case err of
              Some e \<Rightarrow> (s, fs, lg @ [[S ''error writing notification status:'', E e]])
            | None \<Rightarrow> (s, fs, lg)))"

fun PushArgosStatus :: "cycle_env list \<Rightarrow> world \<Rightarrow> world" where
  \<comment> \<open>the loop has no exit; it is run for as many iterations as the list is long\<close>
  "PushArgosStatus [] w = w"
| "PushArgosStatus (env # envs) w = PushArgosStatus envs (pushCycle env w)"

subsection \<open>Construction\<close>

definition init :: "ArgosNotificationServer \<Rightarrow> error option \<times> ArgosNotificationServer" where
  "init s =
     (if Port s = 0 then (Some (ErrorString ''server port not set''), s)
      else if ArgosHome s = '''' then (Some (ErrorString ''Argos home directory not set''), s)
      else
        (let s = (if Host s = '''' then s\<lparr>Host := ''localhost''\<rparr> else s);
             s = s\<lparr>notifications := Map.empty\<rparr>;
             s = s\<lparr>lastNotificationStatus := impossibleNotificationStatus\<rparr>
         in (None, s)))"

subsection \<open>The request handler\<close>

subsubsection \<open>Request paths\<close>

definition strings_HasPrefix :: "string \<Rightarrow> string \<Rightarrow> bool" where
  "strings_HasPrefix s pre = (length s \<ge> length pre \<and> take (length pre) s = pre)"

definition requestURLNotificationApp :: "string \<Rightarrow> error + string" where
  "requestURLNotificationApp path =
     (if length path < 2 \<or> \<not> strings_HasPrefix path ''/''
      then Inl (ErrorString ''no slash prefix'')
      else Inr (drop 1 path))"

subsubsection \<open>Request bodies\<close>

text \<open>
  \<open>json.NewDecoder(r.Body).Decode\<close> reads the first JSON value of the body and
  stores it into a struct whose only field is \<open>Label string\<close>, tagged
  \<open>json:"label"\<close>. The body is modelled by what the decoder's scanner finds in
  it: no JSON value (an empty, truncated or ill-formed body), or a value. The members
  of an object are in the order of the text, duplicates included.
\<close>

datatype json =
    JNull
  | JBool bool
  | JNumber string
  | JString string
  | JArray "json list"
  | JObject "(string \<times> json) list"

datatype request_body = NoJSON | JSON json

definition ascii_lower :: "char \<Rightarrow> char" where
  "ascii_lower c =
     (if CHR ''A'' \<le> c \<and> c \<le> CHR ''Z'' then char_of (of_char c + (32::nat)) else c)"

definition names_label :: "string \<Rightarrow> bool" where
  \<comment> \<open>the decoder matches a member's key with a field's name without regard to case\<close>
  "names_label key = (map ascii_lower key = ''label'')"

fun store_members ::
  "(string \<times> json) list \<Rightarrow> string \<times> error option \<Rightarrow> string \<times> error option" where
  \<comment> \<open>the state is the field \<open>Label\<close> and the first error saved; a \<open>null\<close> leaves
      a string field as it is, a value that is not a string is a type error, after
      which decoding goes on\<close>
  "store_members [] st = st"
| "store_members ((key, v) # members) (lbl, err) =
     store_members members
       (if names_label key then
          (case v of
             JString str \<Rightarrow> (str, err)
           | JNull \<Rightarrow> (lbl, err)
           | _ \<Rightarrow> (lbl, (case err of None \<Rightarrow> Some UnmarshalTypeError | Some e \<Rightarrow> Some e)))
        else (lbl, err))"

definition json_Decode :: "request_body \<Rightarrow> string \<times> error option" where
  \<comment> \<open>the field \<open>Label\<close> after the call, which starts as \<open>""\<close>, and the error returned\<close>
  "json_Decode b =
     (case b of
        NoJSON \<Rightarrow> ('''', Some SyntaxError)
      | JSON JNull \<Rightarrow> ('''', None)
      | JSON (JObject members) \<Rightarrow> store_members members ('''', None)
      | JSON _ \<Rightarrow> ('''', Some UnmarshalTypeError))"

record request =
  Method :: string
  URL_Path :: string
  Body :: request_body

definition http_StatusOK :: int where
  "http_StatusOK = 200"

definition http_StatusBadRequest :: int where
  "http_StatusBadRequest = 400"

definition updateArgosStatus ::
  "time \<Rightarrow> string \<Rightarrow> string \<Rightarrow> ArgosNotificationServer \<Rightarrow> ArgosNotificationServer" where
  \<comment> \<open>\<open>now\<close> is the value of \<open>time.Now()\<close>\<close>
  "updateArgosStatus now app notifs s =
     s\<lparr>notifications := (notifications s)(app \<mapsto> \<lparr>label = notifs, updatedAt = now\<rparr>)\<rparr>"

definition ServeHTTP ::
  "time \<Rightarrow> request \<Rightarrow> ArgosNotificationServer
     \<Rightarrow> (int \<times> logline list) \<times> ArgosNotificationServer" where
  \<comment> \<open>the result is the status written to the response and the lines logged\<close>
  "ServeHTTP now r s =
     (case requestURLNotificationApp (URL_Path r) of
        Inl err \<Rightarrow>
          ((http_StatusBadRequest,
            [[S ''Request to invalid path'', S (URL_Path r), S '':'', E err]]), s)
      | Inr notifyingApp \<Rightarrow>
          (case json_Decode (Body r) of
             (lbl, Some err) \<Rightarrow>
               ((http_StatusBadRequest, [[S ''JSON payload doesn't contain label'']]), s)
           | (lbl, None) \<Rightarrow>
               ((http_StatusOK, []), updateArgosStatus now notifyingApp lbl s)))"

subsection \<open>Example states\<close>

definition server0 :: ArgosNotificationServer where
  \<comment> \<open>a server as \<open>init\<close> leaves it\<close>
  "server0 =
     \<lparr>Host = ''localhost'', Port = 18989, ArgosHome = ''/home/u/.config/argos'',
      lastNotificationStatus = impossibleNotificationStatus, notifications = Map.empty\<rparr>"

definition server1 :: ArgosNotificationServer where
  \<comment> \<open>three unread mails, reported at time 0\<close>
  "server1 =
     server0\<lparr>notifications := [''mail.hobsons.com'' \<mapsto> \<lparr>label = ''3'', updatedAt = 0\<rparr>]\<rparr>"

definition server2 :: ArgosNotificationServer where
  \<comment> \<open>two sources, reported at times 0 and 1\<close>
  "server2 =
     server0\<lparr>notifications :=
       [''mail.hobsons.com'' \<mapsto> \<lparr>label = ''2'', updatedAt = 0\<rparr>,
        ''unknown.app'' \<mapsto> \<lparr>label = ''5'', updatedAt = 1\<rparr>]\<rparr>"

definition server_zero :: ArgosNotificationServer where
  \<comment> \<open>a source that reports no unread notification\<close>
  "server_zero =
     server0\<lparr>notifications := [''mail.hobsons.com'' \<mapsto> \<lparr>label = ''0'', updatedAt = 0\<rparr>]\<rparr>"

definition constant_clock :: "time \<Rightarrow> appname \<Rightarrow> time" where
  \<comment> \<open>a clock that does not advance during one eviction pass\<close>
  "constant_clock now app = now"

definition unset_server :: ArgosNotificationServer where
  \<comment> \<open>a server with its options applied, before \<open>init\<close>\<close>
  "unset_server =
     \<lparr>Host = '''', Port = 18989, ArgosHome = ''/home/u/.config/argos'',
      lastNotificationStatus = '''', notifications = Map.empty\<rparr>"

definition status1 :: string where
  \<comment> \<open>the rendering of \<open>server1\<close>: sigma, then 3\<close>
  "status1 = [CHR 0xCF, CHR 0x83, CHR ''3'']"

definition fs0 :: filesystem where
  \<comment> \<open>an empty file system, no call made yet\<close>
  "fs0 = \<lparr>files = Map.empty, calls = []\<rparr>"

definition env_ok :: cycle_env where
  \<comment> \<open>a cycle at clock reading 10 whose file operations succeed\<close>
  "env_ok =
     \<lparr>prune_clock = constant_clock 10, prune_order = [''mail.hobsons.com''],
      status_order = [''mail.hobsons.com''], io_fate = IOSucceeds\<rparr>"

definition env_denied :: cycle_env where
  \<comment> \<open>a cycle in which the temporary file cannot be created\<close>
  "env_denied = env_ok\<lparr>io_fate := CreateFails (OSError ''permission denied'')\<rparr>"

definition env_later :: cycle_env where
  \<comment> \<open>the next cycle, 4.7 seconds on\<close>
  "env_later = env_ok\<lparr>prune_clock := constant_clock 4700000010\<rparr>"

subsection \<open>The specification's wording\<close>

text \<open>
  The rendered status as the specification describes it: the non-empty display
  fragments of the sources of the registry, sorted, joined with single spaces. It
  does not mention an order of traversal.
\<close>

definition Render_spec :: "(appname \<rightharpoonup> notification) \<Rightarrow> string" where
  "Render_spec m =
     strings_Join
       (sorted_list_of_multiset
          (filter_mset (\<lambda>fragment. fragment \<noteq> '''')
             (image_mset (\<lambda>app. notificationDisplay app (the (m app))) (mset_set (dom m)))))
       '' ''"

text \<open>The icon of a source: its entry in the icon map, or the unknown glyph.\<close>

definition icon_of :: "appname \<Rightarrow> string" where
  "icon_of app = (case appDisplayIcons app of None \<Rightarrow> unknownAppIcon | Some icon \<Rightarrow> icon)"

text \<open>A record is stale when its age exceeds 30 minutes, in nanoseconds.\<close>

definition stale :: "(appname \<Rightarrow> time) \<Rightarrow> (appname \<rightharpoonup> notification) \<Rightarrow> appname \<Rightarrow> bool" where
  "stale clock m app =
     (case m app of None \<Rightarrow> False | Some notifs \<Rightarrow> clock app - updatedAt notifs > 1800000000000)"

section \<open>Properties\<close>

subsection \<open>Icons\<close>

lemma appDisplayIcons_nonempty: "appDisplayIcons app \<noteq> Some ''''"
  by (simp add: appDisplayIcons_def)

lemma appIcon_cases:
  "(let appIcon = map_index appDisplayIcons app
    in if appIcon = '''' then unknownAppIcon else appIcon) =
   (case appDisplayIcons app of None \<Rightarrow> unknownAppIcon | Some icon \<Rightarrow> icon)"
  using appDisplayIcons_nonempty [of app]
  by (simp add: map_index_def Let_def split: option.split)

lemma notificationDisplay_icon_of:
  "notificationDisplay app notifs =
     (if label notifs = '''' \<or> label notifs = ''0'' then ''''
      else if label notifs = ''1'' then icon_of app
      else icon_of app @ label notifs)"
  using appIcon_cases [of app]
  by (simp add: notificationDisplay_def fmt_Sprint_def Let_def icon_of_def)

text \<open>
  C1. The display fragment of a source is empty when the label is \<open>""\<close> or \<open>"0"\<close>.
  Otherwise the icon is the entry of the static icon map when the source has one and
  the unknown glyph (the middle dot) when it has none; the fragment is the icon alone
  for the label \<open>"1"\<close> and the icon followed by the label, verbatim, for every other
  label.
\<close>

theorem notificationDisplay_fragment:
  "notificationDisplay app notifs =
     (if label notifs = '''' \<or> label notifs = ''0'' then ''''
      else if label notifs = ''1''
        then (case appDisplayIcons app of None \<Rightarrow> [CHR 0xC2, CHR 0xB7] | Some icon \<Rightarrow> icon)
        else (case appDisplayIcons app of None \<Rightarrow> [CHR 0xC2, CHR 0xB7] | Some icon \<Rightarrow> icon)
             @ label notifs)"
  by (simp add: notificationDisplay_icon_of icon_of_def unknownAppIcon_def split: option.split)

subsection \<open>The request handler\<close>

lemma requestURLNotificationApp_Cons:
  "requestURLNotificationApp (CHR ''/'' # c # rest) = Inr (c # rest)"
  by (simp add: requestURLNotificationApp_def strings_HasPrefix_def)

lemma requestURLNotificationApp_rejects:
  "isl (requestURLNotificationApp path) \<longleftrightarrow>
     (path = ''/'' \<or> (\<forall>rest. path \<noteq> CHR ''/'' # rest))"
proof (cases path)
  case Nil
  then show ?thesis by (simp add: requestURLNotificationApp_def)
next
  case (Cons c cs)
  then show ?thesis
    by (cases cs) (auto simp add: requestURLNotificationApp_def strings_HasPrefix_def)
qed

lemma json_Decode_label_3:
  "json_Decode (JSON (JObject [(''label'', JString ''3'')])) = (''3'', None)"
  by (simp add: json_Decode_def names_label_def ascii_lower_def)

lemma ServeHTTP_bad_path:
  "requestURLNotificationApp (URL_Path r) = Inl err \<Longrightarrow>
   ServeHTTP now r s =
     ((http_StatusBadRequest,
       [[S ''Request to invalid path'', S (URL_Path r), S '':'', E err]]), s)"
  by (simp add: ServeHTTP_def)

lemma ServeHTTP_decode_error:
  "requestURLNotificationApp (URL_Path r) = Inr app \<Longrightarrow>
   json_Decode (Body r) = (lbl, Some err) \<Longrightarrow>
   ServeHTTP now r s =
     ((http_StatusBadRequest, [[S ''JSON payload doesn't contain label'']]), s)"
  by (simp add: ServeHTTP_def)

lemma ServeHTTP_ok:
  "requestURLNotificationApp (URL_Path r) = Inr app \<Longrightarrow>
   json_Decode (Body r) = (lbl, None) \<Longrightarrow>
   ServeHTTP now r s = ((http_StatusOK, []), updateArgosStatus now app lbl s)"
  by (simp add: ServeHTTP_def)

lemma ServeHTTP_Method: "ServeHTTP now (r\<lparr>Method := m\<rparr>) s = ServeHTTP now r s"
  by (simp add: ServeHTTP_def split: sum.split prod.split option.split)

text \<open>
  C10. Every request path of at least two bytes that begins with a slash is accepted,
  and the source identifier is all of the path after that slash, further slashes
  included: the path \<open>/a/b\<close> upserts the source \<open>a/b\<close>. The rejected paths are
  \<open>/\<close> and the paths that do not begin with a slash, the empty path among them.
\<close>

theorem requestURLNotificationApp_accepts:
  "(2 \<le> length path \<and> strings_HasPrefix path ''/'' \<longrightarrow>
      requestURLNotificationApp path = Inr (drop 1 path))
   \<and> requestURLNotificationApp (CHR ''/'' # c # rest) = Inr (c # rest)
   \<and> (isl (requestURLNotificationApp path) \<longleftrightarrow>
        (path = ''/'' \<or> (\<forall>rest. path \<noteq> CHR ''/'' # rest)))
   \<and> requestURLNotificationApp ''/a/b'' = Inr ''a/b''
   \<and> notifications (snd (ServeHTTP now
         \<lparr>Method = ''POST'', URL_Path = ''/a/b'',
          Body = JSON (JObject [(''label'', JString ''3'')])\<rparr> s)) ''a/b''
       = Some \<lparr>label = ''3'', updatedAt = now\<rparr>"
proof -
  have "2 \<le> length path \<and> strings_HasPrefix path ''/'' \<longrightarrow>
      requestURLNotificationApp path = Inr (drop 1 path)"
    by (simp add: requestURLNotificationApp_def)
  moreover have ab: "requestURLNotificationApp ''/a/b'' = Inr ''a/b''"
    by (rule requestURLNotificationApp_Cons)
  moreover have "notifications (snd (ServeHTTP now
         \<lparr>Method = ''POST'', URL_Path = ''/a/b'',
          Body = JSON (JObject [(''label'', JString ''3'')])\<rparr> s)) ''a/b''
       = Some \<lparr>label = ''3'', updatedAt = now\<rparr>"
    using ab json_Decode_label_3
    by (simp add: ServeHTTP_ok [where app = "''a/b''" and lbl = "''3''"] updateArgosStatus_def)
  ultimately show ?thesis
    using requestURLNotificationApp_Cons [of c rest] requestURLNotificationApp_rejects [of path]
    by blast
qed

theorem requestURLNotificationApp_accepts_witness:
  "2 \<le> length ''/x/y'' \<and> strings_HasPrefix ''/x/y'' ''/''
   \<and> requestURLNotificationApp ''/x/y'' = Inr ''x/y''
   \<and> isl (requestURLNotificationApp ''/'')
   \<and> isl (requestURLNotificationApp ''x/y'')
   \<and> isl (requestURLNotificationApp '''')
   \<and> \<not> isl (requestURLNotificationApp ''//'')"
  using requestURLNotificationApp_accepts [of "''/x/y''"]
    requestURLNotificationApp_accepts [of "''/''"]
    requestURLNotificationApp_accepts [of "''x/y''"]
    requestURLNotificationApp_accepts [of "''''"]
    requestURLNotificationApp_accepts [of "''//''"]
  by (simp add: strings_HasPrefix_def)

text \<open>
  C9. The handler does not look at the request's method: the outcome under any method
  is the outcome under \<open>POST\<close>, and a request with a well-formed path and a
  body that decodes answers 200 and upserts the record, whatever the method.
\<close>

theorem ServeHTTP_ignores_method:
  "ServeHTTP now (r\<lparr>Method := m\<rparr>) s = ServeHTTP now (r\<lparr>Method := ''POST''\<rparr>) s
   \<and> (requestURLNotificationApp (URL_Path r) = Inr app \<and> json_Decode (Body r) = (lbl, None) \<longrightarrow>
        ServeHTTP now (r\<lparr>Method := m\<rparr>) s =
          ((200, []),
           s\<lparr>notifications := (notifications s)(app \<mapsto> \<lparr>label = lbl, updatedAt = now\<rparr>)\<rparr>))"
  using ServeHTTP_ok [of r app lbl now s]
  by (simp add: ServeHTTP_Method updateArgosStatus_def http_StatusOK_def)

theorem ServeHTTP_ignores_method_witness:
  "requestURLNotificationApp ''/mail.hobsons.com'' = Inr ''mail.hobsons.com''
   \<and> json_Decode (JSON (JObject [(''label'', JString ''3'')])) = (''3'', None)
   \<and> ServeHTTP 7 \<lparr>Method = ''DELETE'', URL_Path = ''/mail.hobsons.com'',
          Body = JSON (JObject [(''label'', JString ''3'')])\<rparr> server0 =
       ((200, []),
        server0\<lparr>notifications := [''mail.hobsons.com'' \<mapsto> \<lparr>label = ''3'', updatedAt = 7\<rparr>]\<rparr>)"
proof -
  have p: "requestURLNotificationApp ''/mail.hobsons.com'' = Inr ''mail.hobsons.com''"
    by (rule requestURLNotificationApp_Cons)
  have d: "json_Decode (JSON (JObject [(''label'', JString ''3'')])) = (''3'', None)"
    by (rule json_Decode_label_3)
  have "ServeHTTP 7 \<lparr>Method = ''DELETE'', URL_Path = ''/mail.hobsons.com'',
          Body = JSON (JObject [(''label'', JString ''3'')])\<rparr> server0 =
       ((200, []),
        server0\<lparr>notifications := [''mail.hobsons.com'' \<mapsto> \<lparr>label = ''3'', updatedAt = 7\<rparr>]\<rparr>)"
    using p d ServeHTTP_ignores_method
      [where now = 7 and m = "''DELETE''" and s = server0
         and app = "''mail.hobsons.com''" and lbl = "''3''"
         and r = "\<lparr>Method = ''GET'', URL_Path = ''/mail.hobsons.com'',
            Body = JSON (JObject [(''label'', JString ''3'')])\<rparr>", THEN conjunct2]
    by (simp add: server0_def)
  with p d show ?thesis by simp
qed

text \<open>
  C7. A request is to be refused, and the registry left alone, when its body does not
  decode to a JSON structure with a \<open>label\<close> member. The handler does so when the
  decoder returns an error (the two lemmas \<open>ServeHTTP_bad_path\<close> and
  \<open>ServeHTTP_decode_error\<close> above). The decoder returns none for an object that
  has no such member: on the body \<open>{}\<close> the handler answers 200 and replaces the
  label \<open>3\<close> of the source by the empty label.
\<close>

theorem ServeHTTP_accepts_object_without_label:
  "ServeHTTP 5 \<lparr>Method = ''POST'', URL_Path = ''/mail.hobsons.com'', Body = JSON (JObject [])\<rparr>
     server1 =
     ((200, []),
      server1\<lparr>notifications := [''mail.hobsons.com'' \<mapsto> \<lparr>label = '''', updatedAt = 5\<rparr>]\<rparr>)"
  using requestURLNotificationApp_Cons [of "CHR ''m''" "''ail.hobsons.com''"]
  by (simp add: ServeHTTP_def json_Decode_def updateArgosStatus_def server1_def server0_def
      http_StatusOK_def)

subsection \<open>Eviction\<close>

lemma notificationMaxLifetime_value: "notificationMaxLifetime = 1800000000000"
  by (simp add: notificationMaxLifetime_def time_Minute_def)

lemma time_Since_exceeds:
  "time_Since now t > notificationMaxLifetime \<longleftrightarrow> now - t > 1800000000000"
  by (simp add: time_Since_def Let_def notificationMaxLifetime_value maxDuration_def
      minDuration_def)

lemma defunctApps_foldl:
  "foldl (\<lambda>defunct app.
        case m app of
          None \<Rightarrow> defunct
        | Some notifs \<Rightarrow>
            if time_Since (clock app) (updatedAt notifs) > notificationMaxLifetime
            then defunct @ [app] else defunct) acc order
   = acc @ filter (stale clock m) order"
  by (induction order arbitrary: acc)
     (simp_all add: stale_def time_Since_exceeds split: option.split)

lemma defunctApps_filter: "defunctApps clock order m = filter (stale clock m) order"
  by (simp add: defunctApps_def defunctApps_foldl)

lemma foldl_delete:
  "foldl (\<lambda>m app. m(app := None)) m apps k = (if k \<in> set apps then None else m k)"
  by (induction apps arbitrary: m) simp_all

lemma pruneStaleNotifications_notifications:
  "notifications (snd (pruneStaleNotifications clock order s)) app =
     (if app \<in> set order \<and> stale clock (notifications s) app then None
      else notifications s app)"
  by (simp add: pruneStaleNotifications_def Let_def defunctApps_filter foldl_delete)

lemma pruneStaleNotifications_range:
  assumes "range_order order (notifications s)"
  shows "notifications (snd (pruneStaleNotifications clock order s)) app =
     (case notifications s app of
        None \<Rightarrow> None
      | Some notifs \<Rightarrow>
          if clock app - updatedAt notifs > 1800000000000 then None else Some notifs)"
proof (cases "notifications s app")
  case None
  then show ?thesis by (simp add: pruneStaleNotifications_notifications)
next
  case (Some notifs)
  then have "app \<in> set order" using assms by (auto simp add: range_order_def)
  with Some show ?thesis by (simp add: pruneStaleNotifications_notifications stale_def)
qed

lemma pruneStaleNotifications_other_fields:
  "snd (pruneStaleNotifications clock order s) =
     s\<lparr>notifications := notifications (snd (pruneStaleNotifications clock order s))\<rparr>"
  by (simp add: pruneStaleNotifications_def Let_def)

text \<open>
  C3. The eviction pass removes exactly the records whose age, the clock's reading less
  \<open>updatedAt\<close>, is strictly more than 30 minutes (in nanoseconds): each such record
  is deleted, and each record of at most 30 minutes stays as it is, as does the rest of
  the server. The reading is the one taken when the record is examined; with a clock
  that stands still during the pass it is the one current time of the claim.
\<close>

theorem pruneStaleNotifications_evicts:
  assumes "range_order order (notifications s)"
  shows "snd (pruneStaleNotifications clock order s) =
     s\<lparr>notifications := (\<lambda>app.
          case notifications s app of
            None \<Rightarrow> None
          | Some notifs \<Rightarrow>
              if clock app - updatedAt notifs > 30 * (60 * 1000000000) then None
              else Some notifs)\<rparr>"
proof -
  have "notifications (snd (pruneStaleNotifications clock order s)) = (\<lambda>app.
          case notifications s app of
            None \<Rightarrow> None
          | Some notifs \<Rightarrow>
              if clock app - updatedAt notifs > 30 * (60 * 1000000000) then None
              else Some notifs)"
    using pruneStaleNotifications_range [OF assms]
    by (intro ext) (simp split: option.split)
  then show ?thesis
    using pruneStaleNotifications_other_fields [of clock order s] by simp
qed

lemma range_order_server1: "range_order [''mail.hobsons.com''] (notifications server1)"
  by (simp add: range_order_def server1_def server0_def)

lemma range_order_server2:
  "range_order [''unknown.app'', ''mail.hobsons.com''] (notifications server2)"
  by (auto simp add: range_order_def server2_def server0_def)

lemma range_order_server2':
  "range_order [''mail.hobsons.com'', ''unknown.app''] (notifications server2)"
  by (auto simp add: range_order_def server2_def server0_def)

theorem pruneStaleNotifications_evicts_witness:
  "range_order [''unknown.app'', ''mail.hobsons.com''] (notifications server2)
   \<and> snd (pruneStaleNotifications (constant_clock 1800000000001)
            [''unknown.app'', ''mail.hobsons.com''] server2) =
       server2\<lparr>notifications := [''unknown.app'' \<mapsto> \<lparr>label = ''5'', updatedAt = 1\<rparr>]\<rparr>"
proof -
  have "(\<lambda>app. case notifications server2 app of
            None \<Rightarrow> None
          | Some notifs \<Rightarrow>
              if constant_clock 1800000000001 app - updatedAt notifs > 30 * (60 * 1000000000)
              then None else Some notifs) =
        [''unknown.app'' \<mapsto> \<lparr>label = ''5'', updatedAt = 1\<rparr>]"
    by (intro ext) (simp add: server2_def server0_def constant_clock_def)
  then show ?thesis
    using pruneStaleNotifications_evicts
      [OF range_order_server2, of "constant_clock 1800000000001"] range_order_server2
    by simp
qed

lemma dom_pruneStaleNotifications:
  assumes "range_order order (notifications s)"
  shows "dom (notifications (snd (pruneStaleNotifications clock order s))) =
     dom (notifications s) -
       {app. \<exists>notifs. notifications s app = Some notifs
               \<and> clock app - updatedAt notifs > 1800000000000}"
  using pruneStaleNotifications_range [OF assms, of clock]
  by (auto simp add: dom_def split: option.splits if_splits)

text \<open>
  C8, amended. The eviction pass returns no value; the number of entries it removes,
  the size of the registry before less its size after, is the number of records older
  than 30 minutes.
\<close>

theorem pruneStaleNotifications_removed_count:
  assumes "range_order order (notifications s)"
  shows "fst (pruneStaleNotifications clock order s) = ()
    \<and> card (dom (notifications s))
        - card (dom (notifications (snd (pruneStaleNotifications clock order s)))) =
      card {app. \<exists>notifs. notifications s app = Some notifs
                   \<and> clock app - updatedAt notifs > 30 * (60 * 1000000000)}"
proof -
  let ?old = "{app. \<exists>notifs. notifications s app = Some notifs
                   \<and> clock app - updatedAt notifs > 1800000000000}"
  have fin: "finite (dom (notifications s))"
    using assms by (metis List.finite_set range_order_def)
  have sub: "?old \<subseteq> dom (notifications s)" by auto
  then have "finite ?old" using fin by (rule finite_subset)
  then have "card (dom (notifications s) - ?old) = card (dom (notifications s)) - card ?old"
    using sub by (rule card_Diff_subset)
  moreover have "card ?old \<le> card (dom (notifications s))"
    using fin sub by (simp add: card_mono)
  ultimately show ?thesis
    using dom_pruneStaleNotifications [OF assms, of clock] by simp
qed

theorem pruneStaleNotifications_removed_count_witness:
  "range_order [''unknown.app'', ''mail.hobsons.com''] (notifications server2)
   \<and> card {app. \<exists>notifs. notifications server2 app = Some notifs
                   \<and> constant_clock 1800000000001 app - updatedAt notifs
                        > 30 * (60 * 1000000000)} = 1"
proof -
  have "dom (notifications server2) = {''mail.hobsons.com'', ''unknown.app''}"
    by (auto simp add: server2_def server0_def)
  then have "card (dom (notifications server2)) = 2" by simp
  moreover have "dom (notifications (snd (pruneStaleNotifications (constant_clock 1800000000001)
            [''unknown.app'', ''mail.hobsons.com''] server2))) = {''unknown.app''}"
    by (auto simp add: pruneStaleNotifications_notifications stale_def server2_def server0_def
        constant_clock_def dom_def split: if_splits)
  ultimately show ?thesis
    using pruneStaleNotifications_removed_count
      [OF range_order_server2, of "constant_clock 1800000000001"] range_order_server2
    by simp
qed

text \<open>
  C8, as stated: the eviction returns the count of the entries it removed. The function
  has no result. A pass that removes the one record of the registry and a pass that
  removes none return the same value.
\<close>

theorem pruneStaleNotifications_returns_no_count:
  "fst (pruneStaleNotifications (constant_clock 1800000000001) [''mail.hobsons.com''] server1)
     = fst (pruneStaleNotifications (constant_clock 1800000000000) [''mail.hobsons.com''] server1)
   \<and> notifications server1 ''mail.hobsons.com'' = Some \<lparr>label = ''3'', updatedAt = 0\<rparr>
   \<and> notifications (snd (pruneStaleNotifications (constant_clock 1800000000001)
         [''mail.hobsons.com''] server1)) ''mail.hobsons.com'' = None
   \<and> notifications (snd (pruneStaleNotifications (constant_clock 1800000000000)
         [''mail.hobsons.com''] server1)) ''mail.hobsons.com''
       = Some \<lparr>label = ''3'', updatedAt = 0\<rparr>"
  by (simp add: pruneStaleNotifications_notifications stale_def server1_def server0_def
        constant_clock_def)

subsection \<open>Rendering\<close>

lemma visibleNotifications_foldl:
  "foldl (\<lambda>visible app.
        case m app of
          None \<Rightarrow> visible
        | Some notifs \<Rightarrow>
            (let appDisplay = notificationDisplay app notifs
             in if appDisplay \<noteq> '''' then visible @ [appDisplay] else visible)) acc order
   = acc @ filter (\<lambda>fragment. fragment \<noteq> '''')
             (map (\<lambda>app. notificationDisplay app (the (m app)))
                (filter (\<lambda>app. m app \<noteq> None) order))"
  by (induction order arbitrary: acc) (simp_all add: Let_def split: option.split)

lemma visibleNotifications_filter:
  "visibleNotifications order m =
     filter (\<lambda>fragment. fragment \<noteq> '''')
       (map (\<lambda>app. notificationDisplay app (the (m app)))
          (filter (\<lambda>app. m app \<noteq> None) order))"
  by (simp add: visibleNotifications_def visibleNotifications_foldl)

lemma mset_visibleNotifications:
  assumes "range_order order m"
  shows "mset (visibleNotifications order m) =
     filter_mset (\<lambda>fragment. fragment \<noteq> '''')
       (image_mset (\<lambda>app. notificationDisplay app (the (m app))) (mset_set (dom m)))"
proof -
  have "filter (\<lambda>app. m app \<noteq> None) order = order"
    using assms by (auto simp add: range_order_def filter_id_conv)
  moreover have "mset order = mset_set (dom m)"
    using assms by (metis mset_set_set range_order_def)
  ultimately show ?thesis
    by (simp add: visibleNotifications_filter)
qed

lemma sort_Strings_mset: "sort_Strings xs = sorted_list_of_multiset (mset xs)"
  by (simp add: sort_Strings_def)

lemma NotificationStatus_Render_spec:
  assumes "range_order order (notifications s)"
  shows "NotificationStatus order s = Render_spec (notifications s)"
  using mset_visibleNotifications [OF assms]
  by (simp add: NotificationStatus_def Render_spec_def sort_Strings_mset)

lemma range_order_server_zero: "range_order [''mail.hobsons.com''] (notifications server_zero)"
  by (simp add: range_order_def server_zero_def server0_def)

lemma Render_spec_no_fragments:
  assumes "filter_mset (\<lambda>fragment. fragment \<noteq> '''')
     (image_mset (\<lambda>app. notificationDisplay app (the (m app))) (mset_set (dom m))) = {#}"
  shows "Render_spec m = ''''"
  unfolding Render_spec_def assms by simp

text \<open>
  C2. Whatever the order in which the registry is traversed, \<open>NotificationStatus\<close>
  returns the sorted list of the non-empty fragments of its sources, joined with single
  spaces (the empty string when there is none); so two calls on registries of equal
  contents return the same bytes, whatever their two orders of traversal.
\<close>

theorem NotificationStatus_deterministic:
  assumes "range_order order (notifications s)"
    and "range_order order' (notifications s')"
    and "notifications s' = notifications s"
  shows "NotificationStatus order s = Render_spec (notifications s)
    \<and> NotificationStatus order' s' = NotificationStatus order s
    \<and> (filter_mset (\<lambda>fragment. fragment \<noteq> '''')
          (image_mset (\<lambda>app. notificationDisplay app (the (notifications s app)))
             (mset_set (dom (notifications s)))) = {#}
        \<longrightarrow> NotificationStatus order s = '''')"
proof -
  have "NotificationStatus order s = Render_spec (notifications s)"
    using assms(1) by (rule NotificationStatus_Render_spec)
  moreover have "NotificationStatus order' s' = Render_spec (notifications s)"
    using assms(2,3) NotificationStatus_Render_spec [of order' s'] by simp
  ultimately show ?thesis
    using Render_spec_no_fragments [of "notifications s"] by simp
qed

lemma NotificationStatus_server2:
  "NotificationStatus [''unknown.app'', ''mail.hobsons.com''] server2 =
     [CHR 0xC2, CHR 0xB7, CHR ''5'', CHR '' '', CHR 0xCF, CHR 0x83, CHR ''2'']"
  by (simp add: NotificationStatus_def visibleNotifications_def sort_Strings_def
      notificationDisplay_def map_index_def appDisplayIcons_def unknownAppIcon_def
      fmt_Sprint_def server2_def server0_def)

lemma no_fragments_server_zero:
  "filter_mset (\<lambda>fragment. fragment \<noteq> '''')
          (image_mset (\<lambda>app. notificationDisplay app (the (notifications server_zero app)))
             (mset_set (dom (notifications server_zero)))) = {#}"
  by (simp add: server_zero_def server0_def notificationDisplay_def)

theorem NotificationStatus_deterministic_witness:
  "range_order [''unknown.app'', ''mail.hobsons.com''] (notifications server2)
   \<and> range_order [''mail.hobsons.com'', ''unknown.app''] (notifications server2)
   \<and> NotificationStatus [''mail.hobsons.com'', ''unknown.app''] server2 =
       [CHR 0xC2, CHR 0xB7, CHR ''5'', CHR '' '', CHR 0xCF, CHR 0x83, CHR ''2'']
   \<and> Render_spec (notifications server2) =
       [CHR 0xC2, CHR 0xB7, CHR ''5'', CHR '' '', CHR 0xCF, CHR 0x83, CHR ''2'']
   \<and> range_order [''mail.hobsons.com''] (notifications server_zero)
   \<and> filter_mset (\<lambda>fragment. fragment \<noteq> '''')
          (image_mset (\<lambda>app. notificationDisplay app (the (notifications server_zero app)))
             (mset_set (dom (notifications server_zero)))) = {#}
   \<and> NotificationStatus [''mail.hobsons.com''] server_zero = ''''"
proof -
  note t2 = NotificationStatus_deterministic [OF range_order_server2 range_order_server2' refl]
  note tz = NotificationStatus_deterministic
    [OF range_order_server_zero range_order_server_zero refl]
  have "NotificationStatus [''mail.hobsons.com'', ''unknown.app''] server2 =
       [CHR 0xC2, CHR 0xB7, CHR ''5'', CHR '' '', CHR 0xCF, CHR 0x83, CHR ''2'']"
    using t2 NotificationStatus_server2 by (simp only:)
  moreover have "Render_spec (notifications server2) =
       [CHR 0xC2, CHR 0xB7, CHR ''5'', CHR '' '', CHR 0xCF, CHR 0x83, CHR ''2'']"
    using t2 NotificationStatus_server2 by (simp only:)
  moreover have "NotificationStatus [''mail.hobsons.com''] server_zero = ''''"
    using tz no_fragments_server_zero by blast
  ultimately show ?thesis
    using range_order_server2 range_order_server2' range_order_server_zero
      no_fragments_server_zero
    by blast
qed

subsection \<open>The rendered status and the sentinel\<close>

lemma icon_of_first_byte:
  "\<exists>c rest. icon_of app = c # rest \<and> c \<noteq> CHR ''-''"
  by (simp add: icon_of_def appDisplayIcons_def unknownAppIcon_def)

lemma notificationDisplay_begins:
  "notificationDisplay app notifs = '''' \<or>
   (\<exists>rest. notificationDisplay app notifs = icon_of app @ rest)"
  by (simp add: notificationDisplay_icon_of)

lemma strings_Join_begins:
  "strings_Join (x # xs) sep = x @ (if xs = [] then '''' else sep @ strings_Join xs sep)"
  by (cases xs) simp_all

lemma set_visibleNotifications:
  "x \<in> set (visibleNotifications order m) \<Longrightarrow>
   x \<noteq> '''' \<and> (\<exists>app notifs. m app = Some notifs \<and> x = notificationDisplay app notifs)"
  by (fastforce simp add: visibleNotifications_filter)

lemma NotificationStatus_begins:
  "NotificationStatus order s = '''' \<or>
   (\<exists>app rest. app \<in> dom (notifications s) \<and> NotificationStatus order s = icon_of app @ rest)"
proof (cases "sort_Strings (visibleNotifications order (notifications s))")
  case Nil
  then show ?thesis by (simp add: NotificationStatus_def)
next
  case (Cons x xs)
  then have "x \<in> set (visibleNotifications order (notifications s))"
    by (metis list.set_intros(1) set_sort sort_Strings_def)
  then obtain app notifs where x: "x \<noteq> ''''" "notifications s app = Some notifs"
      "x = notificationDisplay app notifs"
    using set_visibleNotifications by blast
  then obtain rest where "x = icon_of app @ rest"
    using notificationDisplay_begins [of app notifs] by auto
  then have "NotificationStatus order s =
      icon_of app @ (rest @ (if xs = [] then '''' else '' '' @ strings_Join xs '' ''))"
    using Cons by (simp add: NotificationStatus_def strings_Join_begins)
  with x(2) show ?thesis by blast
qed

lemma NotificationStatus_possible:
  "NotificationStatus order s \<noteq> impossibleNotificationStatus"
proof
  assume eq: "NotificationStatus order s = impossibleNotificationStatus"
  then have "NotificationStatus order s \<noteq> ''''"
    by (simp add: impossibleNotificationStatus_def)
  then obtain app rest where "NotificationStatus order s = icon_of app @ rest"
    using NotificationStatus_begins [of order s] by blast
  moreover obtain c cs where "icon_of app = c # cs" "c \<noteq> CHR ''-''"
    using icon_of_first_byte [of app] by blast
  ultimately show False
    using eq by (simp add: impossibleNotificationStatus_def)
qed

lemma NotificationStatus_empty:
  "notifications s = Map.empty \<Longrightarrow> NotificationStatus order s = ''''"
  using NotificationStatus_begins [of order s] by auto

subsection \<open>Publishing\<close>

lemma NotificationStatus_marker [simp]:
  "NotificationStatus order (s\<lparr>lastNotificationStatus := x\<rparr>) = NotificationStatus order s"
  by (simp add: NotificationStatus_def)

lemma writeNotificationStatus_same:
  "NotificationStatus order s = lastNotificationStatus s \<Longrightarrow>
   writeNotificationStatus order fate s fs = (None, s, fs)"
  by (simp add: writeNotificationStatus_def)

lemmas write_defs =
  writeNotificationStatus_def writeNotificationTempFile_def os_Rename_def io_error_def Let_def

lemma writeNotificationStatus_changed_error:
  "NotificationStatus order s \<noteq> lastNotificationStatus s \<Longrightarrow>
   fst (writeNotificationStatus order fate s fs) = io_error fate"
  by (cases fate) (simp_all add: write_defs)

lemma writeNotificationStatus_changed_server:
  "NotificationStatus order s \<noteq> lastNotificationStatus s \<Longrightarrow>
   fst (snd (writeNotificationStatus order fate s fs)) =
           s\<lparr>lastNotificationStatus := NotificationStatus order s\<rparr>"
  by (cases fate) (simp_all add: write_defs)

lemma writeNotificationStatus_changed_calls:
  "NotificationStatus order s \<noteq> lastNotificationStatus s \<Longrightarrow>
   \<exists>rest. calls (snd (snd (writeNotificationStatus order fate s fs))) =
           calls fs @ Create (argosNotificationTempFilepath s) # rest"
  by (cases fate) (simp_all add: write_defs argosNotificationTempFilepath_def)

lemma writeNotificationStatus_changed_creates:
  "NotificationStatus order s \<noteq> lastNotificationStatus s \<Longrightarrow>
   length (filter is_Create (calls (snd (snd (writeNotificationStatus order fate s fs)))))
           = length (filter is_Create (calls fs)) + 1"
  by (cases fate) (simp_all add: write_defs)

lemma writeNotificationStatus_changed_writes:
  "NotificationStatus order s \<noteq> lastNotificationStatus s \<Longrightarrow>
   length (filter is_Write (calls (snd (snd (writeNotificationStatus order fate s fs)))))
           \<le> length (filter is_Write (calls fs)) + 1"
  by (cases fate) (simp_all add: write_defs)

lemma writeNotificationStatus_server:
  "fst (snd (writeNotificationStatus order fate s fs)) =
     s\<lparr>lastNotificationStatus := NotificationStatus order s\<rparr>"
proof (cases "NotificationStatus order s = lastNotificationStatus s")
  case True
  then show ?thesis by (simp add: writeNotificationStatus_same)
next
  case False
  then show ?thesis by (rule writeNotificationStatus_changed_server)
qed

lemma writeNotificationStatus_counts:
  "length (filter is_Create (calls (snd (snd (writeNotificationStatus order fate s fs)))))
     \<le> length (filter is_Create (calls fs)) + 1"
  "length (filter is_Write (calls (snd (snd (writeNotificationStatus order fate s fs)))))
     \<le> length (filter is_Write (calls fs)) + 1"
  using writeNotificationStatus_changed_creates [of order s fate fs]
    writeNotificationStatus_changed_writes [of order s fate fs]
  by (cases "NotificationStatus order s = lastNotificationStatus s",
      simp_all add: writeNotificationStatus_same)+

lemma pushCycle_unfold:
  "pushCycle env (s, fs, lg) =
     (let sp = snd (pruneStaleNotifications (prune_clock env) (prune_order env) s);
          r = writeNotificationStatus (status_order env) (io_fate env) sp fs
      in (fst (snd r), snd (snd r),
          case fst r of
            None \<Rightarrow> lg
          | Some e \<Rightarrow> lg @ [[S ''error writing notification status:'', E e]]))"
  by (simp add: pushCycle_def Let_def split: prod.split option.split)

lemma pruneStaleNotifications_marker [simp]:
  "lastNotificationStatus (snd (pruneStaleNotifications clock order s)) = lastNotificationStatus s"
  "ArgosHome (snd (pruneStaleNotifications clock order s)) = ArgosHome s"
  by (simp_all add: pruneStaleNotifications_def Let_def)

lemma pruneStaleNotifications_nothing:
  "notifications (snd (pruneStaleNotifications clock order s)) = notifications s \<Longrightarrow>
   snd (pruneStaleNotifications clock order s) = s"
  using pruneStaleNotifications_other_fields [of clock order s] by simp

lemma init_ok:
  "init s0 = (None, s1) \<Longrightarrow>
   lastNotificationStatus s1 = impossibleNotificationStatus \<and> notifications s1 = Map.empty"
  by (auto simp add: init_def Let_def split: if_splits)

lemma first_cycle_calls:
  assumes "lastNotificationStatus s = impossibleNotificationStatus"
  shows "\<exists>rest. calls (fst (snd (pushCycle env (s, fs, lg)))) =
           calls fs @ Create (argosNotificationTempFilepath s) # rest"
proof -
  let ?sp = "snd (pruneStaleNotifications (prune_clock env) (prune_order env) s)"
  have "NotificationStatus (status_order env) ?sp \<noteq> lastNotificationStatus ?sp"
    using assms NotificationStatus_possible [of "status_order env" ?sp] by simp
  then have "\<exists>rest. calls (snd (snd (writeNotificationStatus (status_order env) (io_fate env) ?sp fs)))
      = calls fs @ Create (argosNotificationTempFilepath ?sp) # rest"
    by (rule writeNotificationStatus_changed_calls)
  then show ?thesis
    by (simp add: pushCycle_unfold Let_def argosNotificationTempFilepath_def)
qed

text \<open>
  C5. The sentinel \<open>-\<close>, the last-written status that \<open>init\<close> sets, is no
  value of \<open>NotificationStatus\<close>: a rendered status is empty, as it is for the empty
  registry, or begins with the icon of one of the sources. So a cycle that starts with
  the sentinel as its marker, the first one, calls for the temporary file to be
  created, whatever the registry holds.
\<close>

theorem sentinel_forces_first_write:
  "NotificationStatus order s \<noteq> impossibleNotificationStatus
   \<and> (NotificationStatus order s = '''' \<or>
       (\<exists>app rest. app \<in> dom (notifications s)
          \<and> NotificationStatus order s = icon_of app @ rest))
   \<and> (notifications s = Map.empty \<longrightarrow> NotificationStatus order s = '''')
   \<and> (init s0 = (None, s1) \<longrightarrow>
        lastNotificationStatus s1 = impossibleNotificationStatus
        \<and> notifications s1 = Map.empty)
   \<and> (lastNotificationStatus s = impossibleNotificationStatus \<longrightarrow>
        (\<exists>rest. calls (fst (snd (pushCycle env (s, fs, lg)))) =
           calls fs @ Create (argosNotificationTempFilepath s) # rest))"
  using NotificationStatus_possible [of order s] NotificationStatus_begins [of order s]
    NotificationStatus_empty [of s order] init_ok [of s0 s1]
    first_cycle_calls [of s env fs lg]
  by blast

theorem sentinel_forces_first_write_witness:
  "notifications server0 = Map.empty
   \<and> init unset_server = (None, server0)
   \<and> lastNotificationStatus server0 = impossibleNotificationStatus
   \<and> NotificationStatus [] server0 = ''''
   \<and> (\<exists>rest. calls (fst (snd (pushCycle (env_ok\<lparr>prune_order := [], status_order := []\<rparr>)
                 (server0, fs0, [])))) =
         Create (filepath_Join ''/home/u/.config/argos'' ''.notifications.tmp'') # rest)"
proof -
  have e: "notifications server0 = Map.empty"
    by (simp add: server0_def)
  have i: "init unset_server = (None, server0)"
    by (simp add: init_def unset_server_def server0_def)
  have l: "lastNotificationStatus server0 = impossibleNotificationStatus"
    by (simp add: server0_def)
  show ?thesis
    using e i l sentinel_forces_first_write
      [where order = "[]" and s = server0 and ?s0.0 = unset_server and ?s1.0 = server0
         and env = "env_ok\<lparr>prune_order := [], status_order := []\<rparr>" and fs = fs0 and lg = "[]"]
    by (simp add: fs0_def argosNotificationTempFilepath_def server0_def)
qed

subsection \<open>Idempotent publication\<close>

lemma pushCycle_server:
  "fst (pushCycle env (s, fs, lg)) =
     (snd (pruneStaleNotifications (prune_clock env) (prune_order env) s))
       \<lparr>lastNotificationStatus :=
          NotificationStatus (status_order env)
            (snd (pruneStaleNotifications (prune_clock env) (prune_order env) s))\<rparr>"
  by (simp add: pushCycle_unfold Let_def writeNotificationStatus_server)

lemma pushCycle_counts:
  "length (filter is_Create (calls (fst (snd (pushCycle env (s, fs, lg))))))
     \<le> length (filter is_Create (calls fs)) + 1"
  "length (filter is_Write (calls (fst (snd (pushCycle env (s, fs, lg))))))
     \<le> length (filter is_Write (calls fs)) + 1"
  using writeNotificationStatus_counts
    [of "status_order env" "io_fate env"
        "snd (pruneStaleNotifications (prune_clock env) (prune_order env) s)" fs]
  by (simp_all add: pushCycle_unfold Let_def)

lemma second_cycle_idle:
  assumes r1: "range_order (status_order e1) (notifications (fst (pushCycle e1 w)))"
    and r2: "range_order (status_order e2) (notifications (fst (pushCycle e1 w)))"
    and same: "notifications (snd (pruneStaleNotifications (prune_clock e2) (prune_order e2)
                 (fst (pushCycle e1 w)))) = notifications (fst (pushCycle e1 w))"
  shows "pushCycle e2 (pushCycle e1 w) = pushCycle e1 w"
proof -
  obtain s fs lg where w: "w = (s, fs, lg)" by (cases w)
  obtain s1 fs1 lg1 where w1: "pushCycle e1 w = (s1, fs1, lg1)" by (cases "pushCycle e1 w")
  let ?sp = "snd (pruneStaleNotifications (prune_clock e1) (prune_order e1) s)"
  have s1: "s1 = ?sp\<lparr>lastNotificationStatus := NotificationStatus (status_order e1) ?sp\<rparr>"
    using pushCycle_server [of e1 s fs lg] w w1 by simp
  have "NotificationStatus (status_order e1) s1 = NotificationStatus (status_order e1) ?sp"
    by (simp add: s1)
  then have marker: "lastNotificationStatus s1 = NotificationStatus (status_order e1) s1"
    by (simp add: s1)
  have "NotificationStatus (status_order e1) s1 = Render_spec (notifications s1)"
    using r1 w1 by (simp add: NotificationStatus_Render_spec)
  moreover have "NotificationStatus (status_order e2) s1 = Render_spec (notifications s1)"
    using r2 w1 by (simp add: NotificationStatus_Render_spec)
  ultimately have eq: "NotificationStatus (status_order e2) s1 = lastNotificationStatus s1"
    using marker by simp
  have idle: "snd (pruneStaleNotifications (prune_clock e2) (prune_order e2) s1) = s1"
    using same w1 by (simp add: pruneStaleNotifications_nothing)
  have "pushCycle e2 (s1, fs1, lg1) = (s1, fs1, lg1)"
    using eq by (simp add: pushCycle_unfold idle writeNotificationStatus_same)
  then show ?thesis by (simp add: w1)
qed

text \<open>
  C4. When the rendered status is the last-written status, \<open>writeNotificationStatus\<close>
  makes no call on the file system and returns the server as it was. So of two
  consecutive cycles between which the registry does not change (no upsert, and the
  second eviction removes nothing) the second leaves server, file system and log as the
  first left them, and the two together write at most once.
\<close>

theorem writeNotificationStatus_idempotent:
  "(NotificationStatus order s = lastNotificationStatus s \<longrightarrow>
      writeNotificationStatus order fate s fs = (None, s, fs))
   \<and> (range_order (status_order e1) (notifications (fst (pushCycle e1 (s, fs, lg))))
      \<and> range_order (status_order e2) (notifications (fst (pushCycle e1 (s, fs, lg))))
      \<and> notifications (snd (pruneStaleNotifications (prune_clock e2) (prune_order e2)
                 (fst (pushCycle e1 (s, fs, lg))))) = notifications (fst (pushCycle e1 (s, fs, lg)))
      \<longrightarrow>
        PushArgosStatus [e1, e2] (s, fs, lg) = pushCycle e1 (s, fs, lg)
        \<and> length (filter is_Create (calls (fst (snd (PushArgosStatus [e1, e2] (s, fs, lg))))))
             \<le> length (filter is_Create (calls fs)) + 1
        \<and> length (filter is_Write (calls (fst (snd (PushArgosStatus [e1, e2] (s, fs, lg))))))
             \<le> length (filter is_Write (calls fs)) + 1)"
  using writeNotificationStatus_same [of order s fate fs]
    second_cycle_idle [of e1 "(s, fs, lg)" e2] pushCycle_counts [of e1 s fs lg]
  by simp

lemma NotificationStatus_server1:
  "NotificationStatus [''mail.hobsons.com''] (server1\<lparr>lastNotificationStatus := x\<rparr>) = status1"
  "NotificationStatus [''mail.hobsons.com''] server1 = status1"
  by (simp_all add: NotificationStatus_def visibleNotifications_def sort_Strings_def
      notificationDisplay_def map_index_def appDisplayIcons_def fmt_Sprint_def
      server1_def server0_def status1_def)

lemma pruneStaleNotifications_server1:
  "now \<le> 1800000000000 \<Longrightarrow>
   snd (pruneStaleNotifications (constant_clock now) [''mail.hobsons.com'']
          (server1\<lparr>lastNotificationStatus := x\<rparr>)) = server1\<lparr>lastNotificationStatus := x\<rparr>"
  by (rule pruneStaleNotifications_nothing, rule ext)
     (simp add: pruneStaleNotifications_notifications stale_def constant_clock_def
        server1_def server0_def)

lemma env_ok_fields:
  "prune_clock env_ok = constant_clock 10"
  "prune_order env_ok = [''mail.hobsons.com'']"
  "status_order env_ok = [''mail.hobsons.com'']"
  "io_fate env_ok = IOSucceeds"
  by (simp_all add: env_ok_def)

lemma env_later_fields:
  "prune_clock env_later = constant_clock 4700000010"
  "prune_order env_later = [''mail.hobsons.com'']"
  "status_order env_later = [''mail.hobsons.com'']"
  "io_fate env_later = IOSucceeds"
  by (simp_all add: env_later_def env_ok_def)

lemma server1_fields:
  "lastNotificationStatus server1 = ''-''"
  "ArgosHome server1 = ''/home/u/.config/argos''"
  by (simp_all add: server1_def server0_def impossibleNotificationStatus_def)

lemma server1_marker: "server1\<lparr>lastNotificationStatus := impossibleNotificationStatus\<rparr> = server1"
  by (simp add: server1_def server0_def)

lemma pushCycle_server1:
  "fst (pushCycle env_ok (server1, fs0, [])) = server1\<lparr>lastNotificationStatus := status1\<rparr>"
  using pruneStaleNotifications_server1 [of 10 impossibleNotificationStatus]
  by (simp add: pushCycle_server env_ok_fields server1_marker NotificationStatus_server1)

lemma pushCycle_server1_calls:
  "calls (fst (snd (pushCycle env_ok (server1, fs0, [])))) =
     [Create (filepath_Join ''/home/u/.config/argos'' ''.notifications.tmp''),
      Write (filepath_Join ''/home/u/.config/argos'' ''.notifications.tmp'')
        (status1 @ [CHR 0x0A]),
      Close (filepath_Join ''/home/u/.config/argos'' ''.notifications.tmp''),
      Rename (filepath_Join ''/home/u/.config/argos'' ''.notifications.tmp'')
        (filepath_Join ''/home/u/.config/argos'' ''.notifications'')]"
proof -
  have "snd (pruneStaleNotifications (constant_clock 10) [''mail.hobsons.com''] server1) = server1"
    using pruneStaleNotifications_server1 [of 10 impossibleNotificationStatus]
    by (simp add: server1_marker)
  moreover have "NotificationStatus [''mail.hobsons.com''] server1 \<noteq> lastNotificationStatus server1"
    by (simp add: NotificationStatus_server1 status1_def server1_fields)
  ultimately show ?thesis
    by (simp add: pushCycle_unfold env_ok_fields write_defs NotificationStatus_server1 fs0_def
        argosNotificationTempFilepath_def argosNotificationFilepath_def server1_fields)
qed

theorem writeNotificationStatus_idempotent_witness:
  "NotificationStatus [''mail.hobsons.com''] (server1\<lparr>lastNotificationStatus := status1\<rparr>)
     = lastNotificationStatus (server1\<lparr>lastNotificationStatus := status1\<rparr>)
   \<and> writeNotificationStatus [''mail.hobsons.com''] IOSucceeds
         (server1\<lparr>lastNotificationStatus := status1\<rparr>) fs0
       = (None, server1\<lparr>lastNotificationStatus := status1\<rparr>, fs0)
   \<and> range_order (status_order env_ok) (notifications (fst (pushCycle env_ok (server1, fs0, []))))
   \<and> range_order (status_order env_later)
         (notifications (fst (pushCycle env_ok (server1, fs0, []))))
   \<and> notifications (snd (pruneStaleNotifications (prune_clock env_later) (prune_order env_later)
         (fst (pushCycle env_ok (server1, fs0, [])))))
       = notifications (fst (pushCycle env_ok (server1, fs0, [])))
   \<and> PushArgosStatus [env_ok, env_later] (server1, fs0, []) = pushCycle env_ok (server1, fs0, [])
   \<and> length (filter is_Write
         (calls (fst (snd (PushArgosStatus [env_ok, env_later] (server1, fs0, [])))))) = 1"
proof -
  have a: "NotificationStatus [''mail.hobsons.com''] (server1\<lparr>lastNotificationStatus := status1\<rparr>)
     = lastNotificationStatus (server1\<lparr>lastNotificationStatus := status1\<rparr>)"
    by (simp add: NotificationStatus_server1)
  have r: "range_order [''mail.hobsons.com''] (notifications (server1\<lparr>lastNotificationStatus := status1\<rparr>))"
    using range_order_server1 by simp
  have b: "range_order (status_order env_ok)
       (notifications (fst (pushCycle env_ok (server1, fs0, []))))"
    using r by (simp add: pushCycle_server1 env_ok_fields)
  have c: "range_order (status_order env_later)
       (notifications (fst (pushCycle env_ok (server1, fs0, []))))"
    using r by (simp add: pushCycle_server1 env_later_fields)
  have d: "notifications (snd (pruneStaleNotifications (prune_clock env_later)
         (prune_order env_later) (fst (pushCycle env_ok (server1, fs0, [])))))
       = notifications (fst (pushCycle env_ok (server1, fs0, [])))"
    using pruneStaleNotifications_server1 [of 4700000010 status1]
    by (simp add: pushCycle_server1 env_later_fields)
  have e: "PushArgosStatus [env_ok, env_later] (server1, fs0, []) = pushCycle env_ok (server1, fs0, [])"
    using b c d writeNotificationStatus_idempotent
      [where ?e1.0 = env_ok and ?e2.0 = env_later and s = server1 and fs = fs0 and lg = "[]",
        THEN conjunct2]
    by blast
  have f: "writeNotificationStatus [''mail.hobsons.com''] IOSucceeds
         (server1\<lparr>lastNotificationStatus := status1\<rparr>) fs0
       = (None, server1\<lparr>lastNotificationStatus := status1\<rparr>, fs0)"
    using a writeNotificationStatus_idempotent
      [where order = "[''mail.hobsons.com'']" and fate = IOSucceeds and fs = fs0
         and s = "server1\<lparr>lastNotificationStatus := status1\<rparr>", THEN conjunct1]
    by blast
  have g: "length (filter is_Write
         (calls (fst (snd (PushArgosStatus [env_ok, env_later] (server1, fs0, [])))))) = 1"
    by (simp only: e pushCycle_server1_calls) simp
  from a b c d e f g show ?thesis by blast
qed

subsection \<open>A failed write\<close>

lemma pushCycle_failed:
  assumes "NotificationStatus (status_order env)
             (snd (pruneStaleNotifications (prune_clock env) (prune_order env) s))
           \<noteq> lastNotificationStatus s"
    and "io_error (io_fate env) = Some err"
  shows "fst (pushCycle env (s, fs, lg)) =
           (snd (pruneStaleNotifications (prune_clock env) (prune_order env) s))
             \<lparr>lastNotificationStatus :=
                NotificationStatus (status_order env)
                  (snd (pruneStaleNotifications (prune_clock env) (prune_order env) s))\<rparr>"
    and "snd (snd (pushCycle env (s, fs, lg))) =
           lg @ [[S ''error writing notification status:'', E err]]"
proof -
  let ?sp = "snd (pruneStaleNotifications (prune_clock env) (prune_order env) s)"
  have "NotificationStatus (status_order env) ?sp \<noteq> lastNotificationStatus ?sp"
    using assms(1) by simp
  then have "fst (writeNotificationStatus (status_order env) (io_fate env) ?sp fs) = Some err"
    using assms(2) by (simp add: writeNotificationStatus_changed_error)
  then show "snd (snd (pushCycle env (s, fs, lg))) =
           lg @ [[S ''error writing notification status:'', E err]]"
    by (simp add: pushCycle_unfold Let_def)
  show "fst (pushCycle env (s, fs, lg)) =
           ?sp\<lparr>lastNotificationStatus := NotificationStatus (status_order env) ?sp\<rparr>"
    by (rule pushCycle_server)
qed

text \<open>
  C6. When the rendered status differs from the last-written status, the marker holds
  the new status after \<open>writeNotificationStatus\<close> whatever the fate of the file
  operations, a failure of the first of them included; the error of the failed
  operation is returned; and a later call at the same marker and the same rendered
  status writes nothing. The cycle logs the error and the loop goes on to its next
  iteration from the state the cycle left.
\<close>

theorem writeNotificationStatus_marker_before_write:
  "(NotificationStatus order s \<noteq> lastNotificationStatus s \<longrightarrow>
      fst (snd (writeNotificationStatus order fate s fs)) =
        s\<lparr>lastNotificationStatus := NotificationStatus order s\<rparr>
      \<and> fst (writeNotificationStatus order fate s fs) = io_error fate
      \<and> (lastNotificationStatus s' =
            lastNotificationStatus (fst (snd (writeNotificationStatus order fate s fs)))
          \<and> NotificationStatus order' s' = NotificationStatus order s \<longrightarrow>
            writeNotificationStatus order' fate' s' fs' = (None, s', fs')))
   \<and> (NotificationStatus (status_order env)
         (snd (pruneStaleNotifications (prune_clock env) (prune_order env) s))
        \<noteq> lastNotificationStatus s
      \<and> io_error (io_fate env) = Some err \<longrightarrow>
        lastNotificationStatus (fst (pushCycle env (s, fs, lg))) =
          NotificationStatus (status_order env)
            (snd (pruneStaleNotifications (prune_clock env) (prune_order env) s))
        \<and> snd (snd (pushCycle env (s, fs, lg))) =
            lg @ [[S ''error writing notification status:'', E err]]
        \<and> PushArgosStatus (env # envs) (s, fs, lg)
            = PushArgosStatus envs (pushCycle env (s, fs, lg)))"
proof -
  have "fst (snd (writeNotificationStatus order fate s fs)) =
        s\<lparr>lastNotificationStatus := NotificationStatus order s\<rparr>
      \<and> fst (writeNotificationStatus order fate s fs) = io_error fate
      \<and> (lastNotificationStatus s' =
            lastNotificationStatus (fst (snd (writeNotificationStatus order fate s fs)))
          \<and> NotificationStatus order' s' = NotificationStatus order s \<longrightarrow>
            writeNotificationStatus order' fate' s' fs' = (None, s', fs'))"
    if "NotificationStatus order s \<noteq> lastNotificationStatus s"
    using that writeNotificationStatus_changed_server [of order s fate fs]
      writeNotificationStatus_changed_error [of order s fate fs]
      writeNotificationStatus_same [of order' s' fate' fs']
    by simp
  moreover have "lastNotificationStatus (fst (pushCycle env (s, fs, lg))) =
          NotificationStatus (status_order env)
            (snd (pruneStaleNotifications (prune_clock env) (prune_order env) s))
        \<and> snd (snd (pushCycle env (s, fs, lg))) =
            lg @ [[S ''error writing notification status:'', E err]]
        \<and> PushArgosStatus (env # envs) (s, fs, lg)
            = PushArgosStatus envs (pushCycle env (s, fs, lg))"
    if "NotificationStatus (status_order env)
         (snd (pruneStaleNotifications (prune_clock env) (prune_order env) s))
        \<noteq> lastNotificationStatus s" "io_error (io_fate env) = Some err"
    using pushCycle_failed [OF that, of fs lg] by simp
  ultimately show ?thesis by blast
qed

lemma env_denied_fields:
  "prune_clock env_denied = constant_clock 10"
  "prune_order env_denied = [''mail.hobsons.com'']"
  "status_order env_denied = [''mail.hobsons.com'']"
  "io_fate env_denied = CreateFails (OSError ''permission denied'')"
  by (simp_all add: env_denied_def env_ok_def)

theorem writeNotificationStatus_marker_before_write_witness:
  "NotificationStatus [''mail.hobsons.com''] server1 \<noteq> lastNotificationStatus server1
   \<and> writeNotificationStatus [''mail.hobsons.com''] (CreateFails (OSError ''permission denied''))
        server1 fs0
      = (Some (OSError ''permission denied''), server1\<lparr>lastNotificationStatus := status1\<rparr>,
         fs0\<lparr>calls := [Create (filepath_Join ''/home/u/.config/argos'' ''.notifications.tmp'')]\<rparr>)
   \<and> writeNotificationStatus [''mail.hobsons.com''] IOSucceeds
        (server1\<lparr>lastNotificationStatus := status1\<rparr>)
        (fs0\<lparr>calls := [Create (filepath_Join ''/home/u/.config/argos'' ''.notifications.tmp'')]\<rparr>)
      = (None, server1\<lparr>lastNotificationStatus := status1\<rparr>,
         fs0\<lparr>calls := [Create (filepath_Join ''/home/u/.config/argos'' ''.notifications.tmp'')]\<rparr>)
   \<and> io_error (io_fate env_denied) = Some (OSError ''permission denied'')
   \<and> pushCycle env_denied (server1, fs0, []) =
       (server1\<lparr>lastNotificationStatus := status1\<rparr>,
        fs0\<lparr>calls := [Create (filepath_Join ''/home/u/.config/argos'' ''.notifications.tmp'')]\<rparr>,
        [[S ''error writing notification status:'', E (OSError ''permission denied'')]])
   \<and> PushArgosStatus [env_denied, env_later] (server1, fs0, [])
       = pushCycle env_denied (server1, fs0, [])"
proof -
  let ?fs = "fs0\<lparr>calls := [Create (filepath_Join ''/home/u/.config/argos'' ''.notifications.tmp'')]\<rparr>"
  let ?s = "server1\<lparr>lastNotificationStatus := status1\<rparr>"
  let ?err = "OSError ''permission denied''"
  have a: "NotificationStatus [''mail.hobsons.com''] server1 \<noteq> lastNotificationStatus server1"
    by (simp add: NotificationStatus_server1 status1_def server1_fields)
  have p: "snd (pruneStaleNotifications (constant_clock now) [''mail.hobsons.com''] server1) = server1"
    if "now \<le> 1800000000000" for now
    using that pruneStaleNotifications_server1 [of now impossibleNotificationStatus]
    by (simp add: server1_marker)
  have b: "io_error (io_fate env_denied) = Some ?err"
    by (simp add: env_denied_fields io_error_def)
  have c: "snd (snd (writeNotificationStatus [''mail.hobsons.com''] (CreateFails ?err) server1 fs0))
      = ?fs"
    using a by (simp add: write_defs fs0_def argosNotificationTempFilepath_def server1_fields)
  note t = writeNotificationStatus_marker_before_write
    [where order = "[''mail.hobsons.com'']" and s = server1 and fate = "CreateFails ?err"
       and fs = fs0 and s' = ?s and order' = "[''mail.hobsons.com'']" and fate' = IOSucceeds
       and fs' = ?fs and env = env_denied and err = ?err and lg = "[]" and envs = "[env_later]"]
  have w1: "writeNotificationStatus [''mail.hobsons.com''] (CreateFails ?err) server1 fs0
      = (Some ?err, ?s, ?fs)"
    using a c t by (simp add: NotificationStatus_server1 io_error_def prod_eq_iff)
  have w2: "writeNotificationStatus [''mail.hobsons.com''] IOSucceeds ?s ?fs = (None, ?s, ?fs)"
    using a t by (simp add: NotificationStatus_server1)
  have d: "pushCycle env_denied (server1, fs0, []) =
       (?s, ?fs, [[S ''error writing notification status:'', E ?err]])"
    by (simp add: pushCycle_unfold env_denied_fields p w1)
  have e: "PushArgosStatus [env_denied, env_later] (server1, fs0, [])
       = pushCycle env_denied (server1, fs0, [])"
    using pruneStaleNotifications_server1 [of 4700000010 status1]
    by (simp only: PushArgosStatus.simps d) (simp add: pushCycle_unfold env_later_fields w2)
  from a b d e w1 w2 show ?thesis by blast
qed

end
